theory Spec2Isabelle
  imports Complex_Main "HOL-Library.List_Lexorder" "HOL-Library.Char_ord"
begin

section \<open>Data model of the notebook\<close>

text \<open>
  The notebook \<^verbatim>\<open>newnotebook.ipynb\<close> works on two pandas tables: the activity log
  \<^verbatim>\<open>vle_log\<close> with the columns \<^verbatim>\<open>student_id\<close>, \<^verbatim>\<open>activity\<close>, \<^verbatim>\<open>date\<close>, and the
  label table \<^verbatim>\<open>vle_grades\<close> with \<^verbatim>\<open>student_id\<close>, \<^verbatim>\<open>final_grade\<close>. A date is a
  calendar day, modelled by its day number; a difference of dates is a number of days.
\<close>

record event =
  student_id :: nat
  activity :: string
  date :: int

text \<open>
  A cell of a pandas column: a number, a string, or the missing value (\<^verbatim>\<open>NaN\<close>, \<^verbatim>\<open>NaT\<close>).
  Numbers are read as reals: the rounding of \<^verbatim>\<open>float64\<close> is not modelled.
\<close>

datatype cell = Num real | Str string | NaN

datatype py_error = ValueError | KeyError | NotFittedError

section \<open>Course periods (cell 1.4)\<close>

text \<open>
  \<^verbatim>\<open>min_d, max_d = vle_log['date'].min(), vle_log['date'].max()\<close>: the minimum and
  maximum of a column; \<^verbatim>\<open>NaT\<close> (here \<open>None\<close>) for an empty one.
\<close>

fun series_min :: "int list \<Rightarrow> int option" where
  "series_min [] = None"
| "series_min (d # ds) = Some (fold min ds d)"

fun series_max :: "int list \<Rightarrow> int option" where
  "series_max [] = None"
| "series_max (d # ds) = Some (fold max ds d)"

text \<open>\<^verbatim>\<open>period_len = ((max_d - min_d).days + 1) // 6\<close>\<close>

definition period_len :: "int \<Rightarrow> int \<Rightarrow> int" where
  "period_len min_d max_d = ((max_d - min_d) + 1) div 6"

text \<open>\<^verbatim>\<open>period_edges = [min_d + pd.Timedelta(days=i*period_len) for i in range(7)]\<close>\<close>

definition period_edges :: "int \<Rightarrow> int \<Rightarrow> int list" where
  "period_edges min_d max_d = map (\<lambda>i. min_d + int i * period_len min_d max_d) [0..<7]"

definition period_lbls :: "string list" where
  "period_lbls = [''Early Start'', ''Start'', ''Early Mid'', ''Mid'', ''Late Mid'', ''End'']"

text \<open>
  \<^verbatim>\<open>pd.cut(x, bins=edges, labels=lbls)\<close> with the defaults \<^verbatim>\<open>right=True\<close>,
  \<^verbatim>\<open>include_lowest=False\<close>, \<^verbatim>\<open>duplicates='raise'\<close>: the bins are the intervals
  \<open>(edge i, edge (i+1)]\<close>. The bin of a value is found by
  \<^verbatim>\<open>bins.searchsorted(x, side='left')\<close>, the number of edges strictly below the value;
  position \<open>0\<close> (at or below the first edge) and position \<open>len(bins)\<close> (above the last
  edge) give the missing value. Edges that decrease, or that repeat, raise
  \<^verbatim>\<open>ValueError\<close>, as does a number of labels other than one less than the number of
  edges.
\<close>

definition searchsorted_left :: "int list \<Rightarrow> int \<Rightarrow> nat" where
  "searchsorted_left bins x = length (filter (\<lambda>b. b < x) bins)"

definition cut_value :: "int list \<Rightarrow> string list \<Rightarrow> int \<Rightarrow> cell" where
  "cut_value bins labels x =
     (let ids = searchsorted_left bins x
      in if ids = 0 \<or> ids = length bins then NaN else Str (labels ! (ids - 1)))"

definition pd_cut :: "int list \<Rightarrow> int list \<Rightarrow> string list \<Rightarrow> py_error + cell list" where
  "pd_cut xs bins labels =
     (if \<not> sorted bins then Inl ValueError
      else if \<not> distinct bins \<and> length bins \<noteq> 2 then Inl ValueError
      else if length labels + 1 \<noteq> length bins then Inl ValueError
      else Inr (map (cut_value bins labels) xs))"

text \<open>
  \<^verbatim>\<open>vle_log['period'] = pd.cut(vle_log['date'], bins=period_edges, labels=period_lbls)\<close>:
  the new column, one cell per row of the log. On an empty log both \<^verbatim>\<open>min_d\<close> and
  \<^verbatim>\<open>max_d\<close> are \<^verbatim>\<open>NaT\<close>, so are the seven edges, and \<^verbatim>\<open>pd.cut\<close> rejects them.
\<close>

definition period_column :: "event list \<Rightarrow> py_error + cell list" where
  "period_column vle_log =
     (case (series_min (map date vle_log), series_max (map date vle_log)) of
        (Some min_d, Some max_d) \<Rightarrow>
          pd_cut (map date vle_log) (period_edges min_d max_d) period_lbls
      | _ \<Rightarrow> Inl ValueError)"

definition ev :: "nat \<Rightarrow> string \<Rightarrow> int \<Rightarrow> event" where
  "ev s a d = \<lparr>student_id = s, activity = a, date = d\<rparr>"

section \<open>Series and frames\<close>

text \<open>
  A pandas \<^verbatim>\<open>Series\<close> indexed by \<^verbatim>\<open>student_id\<close> is the list of its (index, value)
  pairs in index order. A \<^verbatim>\<open>DataFrame\<close> indexed by \<^verbatim>\<open>student_id\<close> is its index and
  its named columns, each a series over that index.
\<close>

type_synonym series = "(nat \<times> cell) list"

record frame =
  findex :: "nat list"
  fcols :: "(string \<times> series) list"

text \<open>\<^verbatim>\<open>df.loc[s, c]\<close>, with \<open>None\<close> where pandas raises \<^verbatim>\<open>KeyError\<close>.\<close>

definition loc :: "frame \<Rightarrow> nat \<Rightarrow> string \<Rightarrow> cell option" where
  "loc fr s c = (case map_of (fcols fr) c of None \<Rightarrow> None | Some ser \<Rightarrow> map_of ser s)"

text \<open>Aligning a series to an index: a label the series lacks gets the missing value.\<close>

definition reindex :: "series \<Rightarrow> nat list \<Rightarrow> series" where
  "reindex ser idx = map (\<lambda>s. (s, case map_of ser s of None \<Rightarrow> NaN | Some v \<Rightarrow> v)) idx"

text \<open>
  \<^verbatim>\<open>pd.concat({name: series, ...}, axis=1)\<close>: an outer join on the index. The columns
  keep the order of the dictionary, the index is the sorted union of the indexes.
\<close>

definition concat_axis1 :: "(string \<times> series) list \<Rightarrow> frame" where
  "concat_axis1 cols =
     (let idx = sort (remdups (concat (map (\<lambda>(n, ser). map fst ser) cols)))
      in \<lparr>findex = idx, fcols = map (\<lambda>(n, ser). (n, reindex ser idx)) cols\<rparr>)"

text \<open>\<^verbatim>\<open>df.fillna(v)\<close>: every missing cell becomes the number \<open>v\<close>.\<close>

definition fillna_cell :: "real \<Rightarrow> cell \<Rightarrow> cell" where
  "fillna_cell v c = (case c of NaN \<Rightarrow> Num v | _ \<Rightarrow> c)"

definition fillna :: "real \<Rightarrow> frame \<Rightarrow> frame" where
  "fillna v fr =
     fr\<lparr>fcols := map (\<lambda>(n, ser). (n, map (\<lambda>(s, c). (s, fillna_cell v c)) ser)) (fcols fr)\<rparr>"

text \<open>
  \<^verbatim>\<open>left.join(right, how='left')\<close> on the index, with no suffixes: a column name on
  both sides raises \<^verbatim>\<open>ValueError\<close> (columns overlap but no suffix specified); else
  the index of the left frame is kept and the columns of the right one are aligned to it.
  The index of the right frame holds each label once.
\<close>

definition join_left :: "frame \<Rightarrow> frame \<Rightarrow> py_error + frame" where
  "join_left l r =
     (if \<exists>c \<in> set (map fst (fcols l)). c \<in> set (map fst (fcols r)) then Inl ValueError
      else Inr \<lparr>findex = findex l,
                fcols = fcols l @ map (\<lambda>(n, ser). (n, reindex ser (findex l))) (fcols r)\<rparr>)"

section \<open>Feature engineering (cell 2, Build ABT)\<close>

text \<open>
  \<^verbatim>\<open>df.groupby('student_id')\<close>: the group keys are the distinct student ids, sorted;
  the group of a key is the rows with that key, in their order in \<open>df\<close>.
\<close>

definition group_keys :: "event list \<Rightarrow> nat list" where
  "group_keys df = sort (remdups (map student_id df))"

definition get_group :: "event list \<Rightarrow> nat \<Rightarrow> event list" where
  "get_group df s = filter (\<lambda>e. student_id e = s) df"

definition groupby_apply :: "(event list \<Rightarrow> cell) \<Rightarrow> event list \<Rightarrow> series" where
  "groupby_apply f df = map (\<lambda>s. (s, f (get_group df s))) (group_keys df)"

text \<open>\<^verbatim>\<open>.size()\<close> and \<^verbatim>\<open>['date'].nunique()\<close> of a group.\<close>

definition size_of :: "event list \<Rightarrow> cell" where
  "size_of g = Num (real (length g))"

definition nunique_date :: "event list \<Rightarrow> cell" where
  "nunique_date g = Num (real (length (remdups (map date g))))"

text \<open>
  \<^verbatim>\<open>vle_log.groupby(['student_id','activity']).size().unstack(fill_value=0)\<close>: one row
  per student, one column per activity of the log, the number of events of the student
  with the activity, \<open>0\<close> where there is none. The columns are sorted by name.
\<close>

definition activity_types :: "event list \<Rightarrow> string list" where
  "activity_types df = sort (remdups (map activity df))"

definition activity_pivot :: "event list \<Rightarrow> frame" where
  "activity_pivot df =
     \<lparr>findex = group_keys df,
      fcols = map (\<lambda>a. (a, groupby_apply (\<lambda>g. size_of (filter (\<lambda>e. activity e = a) g)) df))
                (activity_types df)\<rparr>"

text \<open>
  \<^verbatim>\<open>Series.diff().dt.days\<close> of a column of dates: the first cell is missing, each later
  one is the number of days since the cell before. \<^verbatim>\<open>dropna()\<close> removes the missing
  cells.
\<close>

fun diff_days :: "int list \<Rightarrow> cell list" where
  "diff_days [] = []"
| "diff_days (d # ds) = NaN # map (\<lambda>(a, b). Num (real_of_int (b - a))) (zip (d # ds) ds)"

definition dropna :: "cell list \<Rightarrow> cell list" where
  "dropna cs = filter (\<lambda>c. c \<noteq> NaN) cs"

text \<open>
  \<^verbatim>\<open>Series.std()\<close>, with the default \<^verbatim>\<open>ddof=1\<close>, over the numbers of the column: the
  square root of the sum of the squared deviations from the mean divided by
  \<open>count - 1\<close>; missing when \<open>count - 1 \<le> 0\<close>.
\<close>

fun num_values :: "cell list \<Rightarrow> real list" where
  "num_values [] = []"
| "num_values (Num x # cs) = x # num_values cs"
| "num_values (c # cs) = num_values cs"

definition series_std :: "cell list \<Rightarrow> cell" where
  "series_std cs =
     (let xs = num_values cs; n = length xs
      in if n \<le> 1 then NaN
         else let avg = sum_list xs / real n
              in Num (sqrt (sum_list (map (\<lambda>x. (x - avg)\<^sup>2) xs) / real (n - 1))))"

text \<open>
  \<^verbatim>\<open>
  def stdev_gap(df):
      if len(df)<2: return 0
      gaps = df.sort_values('date')['date'].diff().dt.days.dropna()
      return 0 if gaps.empty else gaps.std()
  \<close>
\<close>

definition stdev_gap :: "event list \<Rightarrow> cell" where
  "stdev_gap df =
     (if length df < 2 then Num 0
      else let gaps = dropna (diff_days (map date (sort_key date df)))
           in if gaps = [] then Num 0 else series_std gaps)"

text \<open>
  \<^verbatim>\<open>midpoint = min_d + (max_d-min_d)/2\<close>: half of a whole number of days may be half
  a day. A comparison with \<^verbatim>\<open>NaT\<close> (the empty log) is false.
\<close>

definition midpoint :: "event list \<Rightarrow> real option" where
  "midpoint vle_log =
     (case (series_min (map date vle_log), series_max (map date vle_log)) of
        (Some min_d, Some max_d) \<Rightarrow> Some (real_of_int min_d + real_of_int (max_d - min_d) / 2)
      | _ \<Rightarrow> None)"

definition le_midpoint :: "real option \<Rightarrow> event \<Rightarrow> bool" where
  "le_midpoint m e = (case m of None \<Rightarrow> False | Some t \<Rightarrow> real_of_int (date e) \<le> t)"

definition gt_midpoint :: "real option \<Rightarrow> event \<Rightarrow> bool" where
  "gt_midpoint m e = (case m of None \<Rightarrow> False | Some t \<Rightarrow> real_of_int (date e) > t)"

definition total_acts :: "event list \<Rightarrow> series" where
  "total_acts vle_log = groupby_apply size_of vle_log"

definition active_days :: "event list \<Rightarrow> series" where
  "active_days vle_log = groupby_apply nunique_date vle_log"

definition activity_consist :: "event list \<Rightarrow> series" where
  "activity_consist vle_log = groupby_apply stdev_gap vle_log"

definition first_half :: "event list \<Rightarrow> series" where
  "first_half vle_log =
     groupby_apply size_of (filter (le_midpoint (midpoint vle_log)) vle_log)"

definition second_half :: "event list \<Rightarrow> series" where
  "second_half vle_log =
     groupby_apply size_of (filter (gt_midpoint (midpoint vle_log)) vle_log)"

definition features :: "event list \<Rightarrow> frame" where
  "features vle_log =
     fillna 0 (concat_axis1
       [(''total_activities'', total_acts vle_log),
        (''active_days'', active_days vle_log),
        (''activity_consistency'', activity_consist vle_log),
        (''first_half_activities'', first_half vle_log),
        (''second_half_activities'', second_half vle_log)])"

text \<open>
  \<^verbatim>\<open>vle_grades.set_index('student_id')\<close>: the label table, one row per student, as a
  frame with the single column \<^verbatim>\<open>final_grade\<close>.
\<close>

definition grades_frame :: "(nat \<times> string) list \<Rightarrow> frame" where
  "grades_frame vle_grades =
     \<lparr>findex = map fst vle_grades,
      fcols = [(''final_grade'', map (\<lambda>(s, g). (s, Str g)) vle_grades)]\<rparr>"

text \<open>
  \<^verbatim>\<open>
  abt = (features
         .join(activity_pivot, how='left')
         .fillna(0)
         .join(vle_grades.set_index('student_id')))
  \<close>
\<close>

definition build_abt :: "event list \<Rightarrow> (nat \<times> string) list \<Rightarrow> py_error + frame" where
  "build_abt vle_log vle_grades =
     (case join_left (features vle_log) (activity_pivot vle_log) of
        Inl e \<Rightarrow> Inl e
      | Inr j \<Rightarrow> join_left (fillna 0 j) (grades_frame vle_grades))"

section \<open>Numeric grade column (cell 2, Numeric grade column)\<close>

text \<open>\<^verbatim>\<open>GRADE_MAP = {'fail':1,'pass':2,'merit':3,'distinction':4}\<close>\<close>

definition GRADE_MAP :: "string \<rightharpoonup> real" where
  "GRADE_MAP = map_of [(''fail'', 1), (''pass'', 2), (''merit'', 3), (''distinction'', 4)]"

text \<open>
  \<^verbatim>\<open>Series.map(dict)\<close>: a value that is not a key of the dictionary is mapped to the
  missing value; nothing is raised.
\<close>

definition map_cell :: "(string \<rightharpoonup> real) \<Rightarrow> cell \<Rightarrow> cell" where
  "map_cell m c =
     (case c of Str k \<Rightarrow> (case m k of None \<Rightarrow> NaN | Some v \<Rightarrow> Num v) | _ \<Rightarrow> NaN)"

definition series_map :: "(string \<rightharpoonup> real) \<Rightarrow> series \<Rightarrow> series" where
  "series_map m ser = map (\<lambda>(s, c). (s, map_cell m c)) ser"

text \<open>\<^verbatim>\<open>df[name] = series\<close>: replaces the column of that name, or appends a new one.\<close>

definition set_column :: "frame \<Rightarrow> string \<Rightarrow> series \<Rightarrow> frame" where
  "set_column fr name ser =
     (if name \<in> set (map fst (fcols fr))
      then fr\<lparr>fcols := map (\<lambda>(n, old). (n, if n = name then ser else old)) (fcols fr)\<rparr>
      else fr\<lparr>fcols := fcols fr @ [(name, ser)]\<rparr>)"

text \<open>
  \<^verbatim>\<open>abt['grade_numeric'] = abt['final_grade'].map(GRADE_MAP)\<close>; reading a column the
  frame lacks raises \<^verbatim>\<open>KeyError\<close>.
\<close>

definition add_grade_numeric :: "frame \<Rightarrow> py_error + frame" where
  "add_grade_numeric abt =
     (case map_of (fcols abt) ''final_grade'' of
        None \<Rightarrow> Inl KeyError
      | Some final_grade \<Rightarrow> Inr (set_column abt ''grade_numeric'' (series_map GRADE_MAP final_grade)))"

definition assemble_abt :: "event list \<Rightarrow> (nat \<times> string) list \<Rightarrow> py_error + frame" where
  "assemble_abt vle_log vle_grades =
     (case build_abt vle_log vle_grades of
        Inl e \<Rightarrow> Inl e
      | Inr abt \<Rightarrow> add_grade_numeric abt)"

section \<open>Feature scaling (cells 3.1 and 4)\<close>

text \<open>
  The feature table \<^verbatim>\<open>X\<close> and its partitions \<^verbatim>\<open>X_train\<close>, \<^verbatim>\<open>X_test\<close> are frames of
  numbers, here a list of named columns; the array scikit-learn works on is the list of
  the columns. The rows of the partitions are chosen by \<^verbatim>\<open>train_test_split\<close> with a
  seeded shuffle: the partitions are taken as given.
\<close>

type_synonym column = "real list"

type_synonym matrix = "column list"

type_synonym table = "(string \<times> column) list"

text \<open>
  \<^verbatim>\<open>StandardScaler\<close>: unfitted when constructed; once fitted it holds the per-column
  \<^verbatim>\<open>mean_\<close> and \<^verbatim>\<open>scale_\<close>. \<^verbatim>\<open>scale_\<close> is the square root of the population variance
  (divisor \<open>n\<close>) of the column, and \<open>1\<close> for a constant column.
\<close>

datatype scaler = Unfitted | Fitted (fitted_mean: "real list") (fitted_scale: "real list")

definition column_mean :: "column \<Rightarrow> real" where
  "column_mean xs = sum_list xs / real (length xs)"

definition column_var :: "column \<Rightarrow> real" where
  "column_var xs = sum_list (map (\<lambda>x. (x - column_mean xs)\<^sup>2) xs) / real (length xs)"

definition column_scale :: "column \<Rightarrow> real" where
  "column_scale xs = (if sqrt (column_var xs) = 0 then 1 else sqrt (column_var xs))"

text \<open>An array with no column or no row is rejected by scikit-learn's input validation.\<close>

definition no_samples :: "matrix \<Rightarrow> bool" where
  "no_samples X = (X = [] \<or> (\<exists>col \<in> set X. col = []))"

text \<open>
  \<^verbatim>\<open>scaler.fit(X)\<close> resets the scaler and computes the statistics of \<open>X\<close>; whatever was
  fitted before is discarded.
\<close>

definition fit :: "scaler \<Rightarrow> matrix \<Rightarrow> py_error + scaler" where
  "fit self X =
     (if no_samples X then Inl ValueError
      else Inr (Fitted (map column_mean X) (map column_scale X)))"

text \<open>
  \<^verbatim>\<open>scaler.transform(X)\<close> applies the stored statistics, \<open>(x - mean) / scale\<close> per
  column; \<^verbatim>\<open>NotFittedError\<close> on an unfitted scaler, \<^verbatim>\<open>ValueError\<close> when \<open>X\<close> has another
  number of columns than the fitted data.
\<close>

definition standardize :: "real list \<Rightarrow> real list \<Rightarrow> matrix \<Rightarrow> matrix" where
  "standardize means scales X =
     map (\<lambda>(col, mu, sd). map (\<lambda>x. (x - mu) / sd) col) (zip X (zip means scales))"

definition transform :: "scaler \<Rightarrow> matrix \<Rightarrow> py_error + matrix" where
  "transform self X =
     (case self of
        Unfitted \<Rightarrow> Inl NotFittedError
      | Fitted means scales \<Rightarrow>
          if no_samples X then Inl ValueError
          else if length X \<noteq> length means then Inl ValueError
          else Inr (standardize means scales X))"

text \<open>\<^verbatim>\<open>scaler.fit_transform(X)\<close> is \<^verbatim>\<open>scaler.fit(X).transform(X)\<close>.\<close>

definition fit_transform :: "scaler \<Rightarrow> matrix \<Rightarrow> py_error + scaler \<times> matrix" where
  "fit_transform self X =
     (case fit self X of
        Inl e \<Rightarrow> Inl e
      | Inr self' \<Rightarrow> (case transform self' X of Inl e \<Rightarrow> Inl e | Inr Xs \<Rightarrow> Inr (self', Xs)))"

text \<open>\<^verbatim>\<open>X[cols]\<close>: the columns named, in that order; \<^verbatim>\<open>KeyError\<close> for a missing one.\<close>

fun select_columns :: "table \<Rightarrow> string list \<Rightarrow> py_error + matrix" where
  "select_columns X [] = Inr []"
| "select_columns X (c # cs) =
     (case map_of X c of
        None \<Rightarrow> Inl KeyError
      | Some col \<Rightarrow> (case select_columns X cs of Inl e \<Rightarrow> Inl e | Inr m \<Rightarrow> Inr (col # m)))"

text \<open>
  \<^verbatim>\<open>scaler = StandardScaler(); X_train_s = scaler.fit_transform(X_train);
  X_test_s = scaler.transform(X_test)\<close>
\<close>

definition scale_partitions :: "table \<Rightarrow> table \<Rightarrow> py_error + scaler \<times> matrix \<times> matrix" where
  "scale_partitions X_train X_test =
     (case fit_transform Unfitted (map snd X_train) of
        Inl e \<Rightarrow> Inl e
      | Inr (scaler, X_train_s) \<Rightarrow>
          (case transform scaler (map snd X_test) of
             Inl e \<Rightarrow> Inl e
           | Inr X_test_s \<Rightarrow> Inr (scaler, X_train_s, X_test_s)))"

text \<open>
  \<^verbatim>\<open>
  for name,cols in subsets.items():
      Xtr = scaler.fit_transform(X_train[cols]); Xte = scaler.transform(X_test[cols])
      ...
  \<close>
  The loop goes on with the scaler object of cell 3.1, as the last iteration left it.
  The classifiers fitted on \<^verbatim>\<open>Xtr\<close> and scored on \<^verbatim>\<open>Xte\<close> do not touch the scaler;
  the result kept here for each subset is the pair of scaled arrays they are given.
\<close>

fun subset_loop ::
  "scaler \<Rightarrow> table \<Rightarrow> table \<Rightarrow> (string \<times> string list) list
     \<Rightarrow> py_error + scaler \<times> (string \<times> matrix \<times> matrix) list" where
  "subset_loop scaler X_train X_test [] = Inr (scaler, [])"
| "subset_loop scaler X_train X_test ((name, cols) # rest) =
     (case select_columns X_train cols of
        Inl e \<Rightarrow> Inl e
      | Inr tr \<Rightarrow>
     (case fit_transform scaler tr of
        Inl e \<Rightarrow> Inl e
      | Inr (scaler1, Xtr) \<Rightarrow>
     (case select_columns X_test cols of
        Inl e \<Rightarrow> Inl e
      | Inr te \<Rightarrow>
     (case transform scaler1 te of
        Inl e \<Rightarrow> Inl e
      | Inr Xte \<Rightarrow>
     (case subset_loop scaler1 X_train X_test rest of
        Inl e \<Rightarrow> Inl e
      | Inr (scaler2, results) \<Rightarrow> Inr (scaler2, (name, Xtr, Xte) # results))))))"

definition evaluation_scaling ::
  "table \<Rightarrow> table \<Rightarrow> (string \<times> string list) list
     \<Rightarrow> py_error + (matrix \<times> matrix) \<times> (string \<times> matrix \<times> matrix) list" where
  "evaluation_scaling X_train X_test subsets =
     (case scale_partitions X_train X_test of
        Inl e \<Rightarrow> Inl e
      | Inr (scaler, X_train_s, X_test_s) \<Rightarrow>
          (case subset_loop scaler X_train X_test subsets of
             Inl e \<Rightarrow> Inl e
           | Inr (scaler', results) \<Rightarrow> Inr ((X_train_s, X_test_s), results)))"

section \<open>Stratified split and cross-validation (cells 3.1 and 3.2)\<close>










section \<open>Notions of the specification\<close>

text \<open>The five aggregate feature columns.\<close>

definition feature_names :: "string list" where
  "feature_names = [''total_activities'', ''active_days'', ''activity_consistency'',
      ''first_half_activities'', ''second_half_activities'']"

text \<open>
  The events of a student that a column of the ABT counts or measures: the events up to
  the midpoint, the events after it, all events of the student for the other aggregates,
  and the events of one activity type for an activity column.
\<close>

definition underlying_events :: "event list \<Rightarrow> nat \<Rightarrow> string \<Rightarrow> event list" where
  "underlying_events vle_log s c =
     (if c = ''first_half_activities''
        then filter (le_midpoint (midpoint vle_log)) (get_group vle_log s)
      else if c = ''second_half_activities''
        then filter (gt_midpoint (midpoint vle_log)) (get_group vle_log s)
      else if c \<in> set feature_names then get_group vle_log s
      else filter (\<lambda>e. activity e = c) (get_group vle_log s))"

text \<open>
  The day-gaps between the consecutive sorted event dates of a student, and the sample
  standard deviation (\<open>ddof = 1\<close>), which a sample of fewer than two values does not
  have.
\<close>

definition day_gaps :: "int list \<Rightarrow> real list" where
  "day_gaps ds = (let s = sort ds in map (\<lambda>(a, b). real_of_int (b - a)) (zip s (tl s)))"

definition sample_std :: "real list \<Rightarrow> real option" where
  "sample_std xs =
     (if length xs < 2 then None
      else Some (sqrt ((\<Sum>x\<leftarrow>xs. (x - sum_list xs / real (length xs))\<^sup>2) / (real (length xs) - 1))))"

text \<open>The inverse \<open>{1: fail, 2: pass, 3: merit, 4: distinction}\<close> of the grade map.\<close>

definition GRADE_INV :: "real \<rightharpoonup> string" where
  "GRADE_INV = map_of [(1, ''fail''), (2, ''pass''), (3, ''merit''), (4, ''distinction'')]"

definition inverse_cell :: "cell \<Rightarrow> cell" where
  "inverse_cell c = (case c of Num v \<Rightarrow> (case GRADE_INV v of None \<Rightarrow> NaN | Some g \<Rightarrow> Str g) | _ \<Rightarrow> NaN)"

text \<open>
  Scaling with the statistics of the training partition only: each column of both
  partitions is standardized with the mean and scale of the training column.
\<close>

definition training_stats_scaling :: "matrix \<Rightarrow> matrix \<Rightarrow> matrix \<times> matrix" where
  "training_stats_scaling tr te =
     (map (\<lambda>col. map (\<lambda>x. (x - column_mean col) / column_scale col) col) tr,
      map (\<lambda>(col, tcol). map (\<lambda>x. (x - column_mean tcol) / column_scale tcol) col) (zip te tr))"

definition subset_scaled_from_training ::
  "table \<Rightarrow> table \<Rightarrow> string \<times> string list \<Rightarrow> string \<times> matrix \<times> matrix \<Rightarrow> bool" where
  "subset_scaled_from_training X_train X_test sub res =
     (fst res = fst sub \<and>
      (\<exists>tr te. select_columns X_train (snd sub) = Inr tr
             \<and> select_columns X_test (snd sub) = Inr te
             \<and> snd res = training_stats_scaling tr te))"

section \<open>Example data\<close>

definition example_log :: "event list" where
  "example_log =
     [ev 101 ''quiz'' 0, ev 101 ''quiz'' 3, ev 102 ''forum'' 6,
      ev 103 ''video'' 1, ev 103 ''video'' 2, ev 103 ''video'' 5, ev 103 ''quiz'' 10]"

definition example_grades :: "(nat \<times> string) list" where
  "example_grades = [(101, ''pass''), (103, ''honors'')]"

definition example_X_train :: table where
  "example_X_train = [(''total_activities'', [1, 3]), (''active_days'', [0, 4])]"

definition example_X_test :: table where
  "example_X_test = [(''total_activities'', [5]), (''active_days'', [6])]"

definition example_subsets :: "(string \<times> string list) list" where
  "example_subsets = [(''All Features'', [''total_activities'', ''active_days'']),
                      (''Frequency Features'', [''active_days''])]"



section \<open>Period coverage\<close>

lemma period_edges_unfold:
  "period_edges m M =
     [m, m + period_len m M, m + 2 * period_len m M, m + 3 * period_len m M,
      m + 4 * period_len m M, m + 5 * period_len m M, m + 6 * period_len m M]"
  by (simp add: period_edges_def upt_rec numeral_nat)

lemma cut_value_first_edge: "bins \<noteq> [] \<Longrightarrow> sorted bins \<Longrightarrow> cut_value bins labels (hd bins) = NaN"
proof -
  assume ne: "bins \<noteq> []" and s: "sorted bins"
  have "\<forall>b \<in> set bins. hd bins \<le> b"
    using ne s by (cases bins) auto
  then have "filter (\<lambda>b. b < hd bins) bins = []"
    by (auto simp: filter_empty_conv)
  then show ?thesis
    by (simp add: cut_value_def searchsorted_left_def)
qed

lemma period_column_min_date:
  assumes "period_column vle_log = Inr ps" and "i < length vle_log"
    and "series_min (map date vle_log) = Some (date (vle_log ! i))"
  shows "ps ! i = NaN"
proof -
  obtain M where M: "series_max (map date vle_log) = Some M"
    using assms(1,3) by (auto simp: period_column_def split: option.splits)
  let ?bins = "period_edges (date (vle_log ! i)) M"
  have cut: "pd_cut (map date vle_log) ?bins period_lbls = Inr ps"
    using assms(1) by (simp add: period_column_def assms(3) M)
  then have s: "sorted ?bins"
    and ps: "ps = map (cut_value ?bins period_lbls) (map date vle_log)"
    by (auto simp: pd_cut_def split: if_splits)
  have hd: "hd ?bins = date (vle_log ! i)" and ne: "?bins \<noteq> []"
    by (simp_all add: period_edges_unfold)
  have "ps ! i = cut_value ?bins period_lbls (hd ?bins)"
    using assms(2) by (simp add: ps hd)
  then show ?thesis using cut_value_first_edge[OF ne s] by simp
qed

text \<open>
  Claim C1. The claim is that every event gets exactly one of the six period labels, the
  events dated \<^verbatim>\<open>max_date\<close> included. The notebook does otherwise. On a log with the
  dates 0, 3, 6, 10 the period is 1 day long and the edges are 0, 1, ..., 6: the event
  of the first day (date 0, the left edge of the first bin, which is open on the left)
  and the event of the last day (date 10, beyond the last edge) both get the missing
  value. On a log with the dates 0 and 6 the event of the first day gets the missing
  value. On a log that spans fewer than 5 days the period is 0 days long, the edges
  coincide, and \<^verbatim>\<open>pd.cut\<close> raises \<^verbatim>\<open>ValueError\<close>. By \<open>period_column_min_date\<close> above, an
  event dated \<^verbatim>\<open>min_d\<close> never gets a label, on any log.
\<close>

theorem period_coverage_fails:
  "period_column [ev 101 ''quiz'' 0, ev 101 ''quiz'' 3, ev 102 ''forum'' 6, ev 102 ''quiz'' 10]
     = Inr [NaN, Str ''Early Mid'', Str ''End'', NaN]
   \<and> period_column [ev 101 ''quiz'' 0, ev 102 ''quiz'' 6] = Inr [NaN, Str ''End'']
   \<and> period_column [ev 101 ''quiz'' 0, ev 102 ''quiz'' 3] = Inl ValueError"
  by (simp add: period_column_def ev_def period_edges_unfold period_len_def pd_cut_def
      cut_value_def searchsorted_left_def period_lbls_def)

section \<open>Looking cells up in the assembled frames\<close>

lemma map_of_tabulate:
  "map_of (map (\<lambda>s. (s, f s)) idx) s = (if s \<in> set idx then Some (f s) else None)"
  by (induction idx) auto

lemma map_of_reindex:
  "map_of (reindex ser idx) s =
     (if s \<in> set idx then Some (case map_of ser s of None \<Rightarrow> NaN | Some v \<Rightarrow> v) else None)"
  unfolding reindex_def by (rule map_of_tabulate)

lemma set_group_keys: "set (group_keys df) = student_id ` set df"
  by (simp add: group_keys_def)

lemma map_of_groupby_apply:
  "map_of (groupby_apply f df) s =
     (if s \<in> student_id ` set df then Some (f (get_group df s)) else None)"
  unfolding groupby_apply_def by (simp add: map_of_tabulate set_group_keys)

lemma fst_groupby_apply: "map fst (groupby_apply f df) = group_keys df"
  by (simp add: groupby_apply_def comp_def)

lemma map_of_fillna_series:
  "map_of (map (\<lambda>(s, c). (s, fillna_cell v c)) ser) s = map_option (fillna_cell v) (map_of ser s)"
  by (induction ser) auto

lemma map_of_fillna_cols:
  "map_of (map (\<lambda>(n, ser). (n, g ser)) cols) c = map_option g (map_of cols c)"
  by (induction cols) auto

lemma loc_fillna: "loc (fillna v fr) s c = map_option (fillna_cell v) (loc fr s c)"
  by (simp add: loc_def fillna_def map_of_fillna_cols map_of_fillna_series split: option.splits)

lemma findex_fillna: "findex (fillna v fr) = findex fr"
  by (simp add: fillna_def)

lemma names_fillna: "map fst (fcols (fillna v fr)) = map fst (fcols fr)"
  by (simp add: fillna_def comp_def case_prod_beta)

lemma set_findex_features: "set (findex (features vle_log)) = student_id ` set vle_log"
  by (auto simp: features_def findex_fillna concat_axis1_def Let_def total_acts_def active_days_def
      activity_consist_def first_half_def second_half_def fst_groupby_apply set_group_keys)

lemma names_features:
  "map fst (fcols (features vle_log)) =
     [''total_activities'', ''active_days'', ''activity_consistency'',
      ''first_half_activities'', ''second_half_activities'']"
  by (simp add: features_def names_fillna concat_axis1_def Let_def)

lemma loc_concat_axis1:
  "loc (concat_axis1 cols) s c =
    (case map_of cols c of None \<Rightarrow> None
     | Some ser \<Rightarrow> if s \<in> set (findex (concat_axis1 cols))
         then Some (case map_of ser s of None \<Rightarrow> NaN | Some v \<Rightarrow> v) else None)"
  by (simp add: loc_def concat_axis1_def Let_def map_of_fillna_cols map_of_reindex split: option.splits)

lemma loc_features:
  assumes "s \<in> student_id ` set vle_log"
  shows "loc (features vle_log) s ''total_activities'' = Some (size_of (get_group vle_log s))"
    and "loc (features vle_log) s ''active_days'' = Some (nunique_date (get_group vle_log s))"
    and "loc (features vle_log) s ''activity_consistency'' = Some (fillna_cell 0 (stdev_gap (get_group vle_log s)))"
    and "loc (features vle_log) s ''first_half_activities'' =
           Some (size_of (get_group (filter (le_midpoint (midpoint vle_log)) vle_log) s))"
    and "loc (features vle_log) s ''second_half_activities'' =
           Some (size_of (get_group (filter (gt_midpoint (midpoint vle_log)) vle_log) s))"
proof -
  have idx: "s \<in> set (findex (concat_axis1
       [(''total_activities'', total_acts vle_log),
        (''active_days'', active_days vle_log),
        (''activity_consistency'', activity_consist vle_log),
        (''first_half_activities'', first_half vle_log),
        (''second_half_activities'', second_half vle_log)]))"
    using assms set_findex_features[of vle_log] by (simp add: features_def findex_fillna)
  show "loc (features vle_log) s ''total_activities'' = Some (size_of (get_group vle_log s))"
    using assms idx unfolding features_def loc_fillna loc_concat_axis1
    by (simp add: total_acts_def map_of_groupby_apply fillna_cell_def size_of_def)
  show "loc (features vle_log) s ''active_days'' = Some (nunique_date (get_group vle_log s))"
    using assms idx unfolding features_def loc_fillna loc_concat_axis1
    by (simp add: active_days_def map_of_groupby_apply fillna_cell_def nunique_date_def)
  show "loc (features vle_log) s ''activity_consistency'' = Some (fillna_cell 0 (stdev_gap (get_group vle_log s)))"
    using assms idx unfolding features_def loc_fillna loc_concat_axis1
    by (simp add: activity_consist_def map_of_groupby_apply)
  have empty_group: "\<And>P. s \<notin> student_id ` set (filter P vle_log) \<Longrightarrow> get_group (filter P vle_log) s = []"
    by (auto simp: get_group_def filter_empty_conv)
  show "loc (features vle_log) s ''first_half_activities'' =
           Some (size_of (get_group (filter (le_midpoint (midpoint vle_log)) vle_log) s))"
    using idx empty_group[of "le_midpoint (midpoint vle_log)"] unfolding features_def loc_fillna loc_concat_axis1
    by (simp add: first_half_def map_of_groupby_apply fillna_cell_def size_of_def)
  show "loc (features vle_log) s ''second_half_activities'' =
           Some (size_of (get_group (filter (gt_midpoint (midpoint vle_log)) vle_log) s))"
    using idx empty_group[of "gt_midpoint (midpoint vle_log)"] unfolding features_def loc_fillna loc_concat_axis1
    by (simp add: second_half_def map_of_groupby_apply fillna_cell_def size_of_def)
qed

lemma map_of_None_iff_names: "map_of cols c = None \<longleftrightarrow> c \<notin> set (map fst cols)"
  by (simp add: map_of_eq_None_iff)

lemma loc_join_left:
  assumes "join_left l r = Inr j"
  shows "loc j s c =
     (if c \<in> set (map fst (fcols l)) then loc l s c
      else case map_of (fcols r) c of None \<Rightarrow> None
           | Some ser \<Rightarrow> if s \<in> set (findex l)
                then Some (case map_of ser s of None \<Rightarrow> NaN | Some v \<Rightarrow> v) else None)"
proof -
  have j: "j = \<lparr>findex = findex l,
                fcols = fcols l @ map (\<lambda>(n, ser). (n, reindex ser (findex l))) (fcols r)\<rparr>"
    using assms by (simp add: join_left_def split: if_splits)
  show ?thesis
  proof (cases "c \<in> set (map fst (fcols l))")
    case True
    then obtain ser where "map_of (fcols l) c = Some ser"
      using map_of_None_iff_names[of "fcols l" c] by auto
    then show ?thesis using True by (simp add: j loc_def map_add_def)
  next
    case False
    then have "map_of (fcols l) c = None" by (simp add: map_of_None_iff_names)
    then show ?thesis using False
      by (simp add: j loc_def map_add_def map_of_fillna_cols map_of_reindex split: option.splits)
  qed
qed

lemma findex_join_left: "join_left l r = Inr j \<Longrightarrow> findex j = findex l"
  by (auto simp: join_left_def split: if_splits)

lemma names_join_left:
  "join_left l r = Inr j \<Longrightarrow> map fst (fcols j) = map fst (fcols l) @ map fst (fcols r)"
  by (auto simp: join_left_def comp_def case_prod_beta split: if_splits)

lemma join_left_ok:
  "set (map fst (fcols l)) \<inter> set (map fst (fcols r)) = {} \<Longrightarrow> \<exists>j. join_left l r = Inr j"
  by (auto simp: join_left_def)

lemma join_left_Inr_disjoint:
  "join_left l r = Inr j \<Longrightarrow> set (map fst (fcols l)) \<inter> set (map fst (fcols r)) = {}"
  by (auto simp: join_left_def split: if_splits)

lemma names_activity_pivot: "map fst (fcols (activity_pivot df)) = activity_types df"
  by (simp add: activity_pivot_def comp_def)

lemma names_grades_frame: "map fst (fcols (grades_frame g)) = [''final_grade'']"
  by (simp add: grades_frame_def)

lemma build_abt_ok:
  assumes "set (activity_types vle_log) \<inter> set (feature_names @ [''final_grade'']) = {}"
  shows "\<exists>abt. build_abt vle_log vle_grades = Inr abt"
proof -
  have "set (map fst (fcols (features vle_log))) \<inter> set (map fst (fcols (activity_pivot vle_log))) = {}"
    using assms unfolding names_features names_activity_pivot feature_names_def by auto
  then obtain j where j: "join_left (features vle_log) (activity_pivot vle_log) = Inr j"
    using join_left_ok by blast
  have "set (map fst (fcols (fillna 0 j))) \<inter> set (map fst (fcols (grades_frame vle_grades))) = {}"
    using assms unfolding names_fillna names_join_left[OF j] names_features names_activity_pivot
      names_grades_frame feature_names_def by auto
  then obtain abt where "join_left (fillna 0 j) (grades_frame vle_grades) = Inr abt"
    using join_left_ok by blast
  then show ?thesis using j by (simp add: build_abt_def)
qed

lemma build_abt_Inr:
  assumes "build_abt vle_log vle_grades = Inr abt"
  obtains j where "join_left (features vle_log) (activity_pivot vle_log) = Inr j"
    and "join_left (fillna 0 j) (grades_frame vle_grades) = Inr abt"
  using assms by (auto simp: build_abt_def split: sum.splits)

lemma fillna_cell_Num: "fillna_cell v (Num x) = Num x"
  by (simp add: fillna_cell_def)

lemma fillna_cell_idem: "fillna_cell v (fillna_cell v c) = fillna_cell v c"
  by (cases c) (simp_all add: fillna_cell_def)

lemma loc_features_fillna:
  "loc (fillna 0 (features vle_log)) s c = loc (features vle_log) s c"
  unfolding features_def loc_fillna
  by (simp add: option.map_comp comp_def fillna_cell_idem option.map_ident)

lemma loc_abt_feature:
  assumes "build_abt vle_log vle_grades = Inr abt" and "c \<in> set feature_names"
  shows "loc abt s c = loc (features vle_log) s c"
proof -
  obtain j where j: "join_left (features vle_log) (activity_pivot vle_log) = Inr j"
    and a: "join_left (fillna 0 j) (grades_frame vle_grades) = Inr abt"
    using assms(1) by (rule build_abt_Inr)
  have cj: "c \<in> set (map fst (fcols (fillna 0 j)))"
    using assms(2) by (auto simp: names_fillna names_join_left[OF j] names_features feature_names_def)
  have cf: "c \<in> set (map fst (fcols (features vle_log)))"
    using assms(2) by (simp add: names_features feature_names_def)
  have "loc abt s c = loc (fillna 0 j) s c"
    using cj by (simp add: loc_join_left[OF a])
  also have "\<dots> = map_option (fillna_cell 0) (loc (features vle_log) s c)"
    using cf by (simp add: loc_fillna loc_join_left[OF j])
  also have "\<dots> = loc (features vle_log) s c"
    using loc_features_fillna[of vle_log s c] by (simp add: loc_fillna)
  finally show ?thesis .
qed

lemma loc_abt_activity:
  assumes "build_abt vle_log vle_grades = Inr abt" and "a \<in> set (activity_types vle_log)"
    and "s \<in> student_id ` set vle_log"
  shows "loc abt s a = Some (size_of (filter (\<lambda>e. activity e = a) (get_group vle_log s)))"
proof -
  obtain j where j: "join_left (features vle_log) (activity_pivot vle_log) = Inr j"
    and ab: "join_left (fillna 0 j) (grades_frame vle_grades) = Inr abt"
    using assms(1) by (rule build_abt_Inr)
  have nf: "a \<notin> set (map fst (fcols (features vle_log)))"
    using join_left_Inr_disjoint[OF j] assms(2) by (auto simp: names_activity_pivot)
  have aj: "a \<in> set (map fst (fcols (fillna 0 j)))"
    using assms(2) by (simp add: names_fillna names_join_left[OF j] names_activity_pivot)
  have col: "map_of (fcols (activity_pivot vle_log)) a =
      Some (groupby_apply (\<lambda>g. size_of (filter (\<lambda>e. activity e = a) g)) vle_log)"
    using assms(2) by (simp add: activity_pivot_def map_of_tabulate)
  have sidx: "s \<in> set (findex (features vle_log))"
    using assms(3) by (simp add: set_findex_features)
  have "loc abt s a = loc (fillna 0 j) s a"
    using aj by (simp add: loc_join_left[OF ab])
  also have "\<dots> = map_option (fillna_cell 0) (loc j s a)"
    by (simp add: loc_fillna)
  also have "loc j s a = Some (size_of (filter (\<lambda>e. activity e = a) (get_group vle_log s)))"
    using nf sidx assms(3) by (simp add: loc_join_left[OF j] col map_of_groupby_apply)
  finally show ?thesis by (simp add: size_of_def fillna_cell_def)
qed

lemma loc_abt_final_grade:
  assumes "build_abt vle_log vle_grades = Inr abt" and "s \<in> student_id ` set vle_log"
  shows "loc abt s ''final_grade'' =
           Some (case map_of vle_grades s of None \<Rightarrow> NaN | Some g \<Rightarrow> Str g)"
proof -
  obtain j where j: "join_left (features vle_log) (activity_pivot vle_log) = Inr j"
    and ab: "join_left (fillna 0 j) (grades_frame vle_grades) = Inr abt"
    using assms(1) by (rule build_abt_Inr)
  have nj: "''final_grade'' \<notin> set (map fst (fcols (fillna 0 j)))"
    using join_left_Inr_disjoint[OF ab] by (auto simp: names_grades_frame)
  have sidx: "s \<in> set (findex (fillna 0 j))"
    using assms(2) by (simp add: findex_fillna findex_join_left[OF j] set_findex_features)
  have m: "map_of (map (\<lambda>(s, g). (s, Str g)) vle_grades) s = map_option Str (map_of vle_grades s)"
    by (induction vle_grades) auto
  show ?thesis
    using nj sidx by (simp add: loc_join_left[OF ab] grades_frame_def m split: option.splits)
qed

lemma names_build_abt:
  assumes "build_abt vle_log vle_grades = Inr abt"
  shows "map fst (fcols abt) = feature_names @ activity_types vle_log @ [''final_grade'']"
proof -
  obtain j where j: "join_left (features vle_log) (activity_pivot vle_log) = Inr j"
    and ab: "join_left (fillna 0 j) (grades_frame vle_grades) = Inr abt"
    using assms(1) by (rule build_abt_Inr)
  show ?thesis
    by (simp add: names_join_left[OF ab] names_fillna names_join_left[OF j] names_features
        names_activity_pivot names_grades_frame feature_names_def)
qed

lemma build_abt_projr:
  assumes "set (activity_types vle_log) \<inter> set (feature_names @ [''final_grade'']) = {}"
  shows "build_abt vle_log vle_grades = Inr (projr (build_abt vle_log vle_grades))"
  using build_abt_ok[OF assms, of vle_grades] by auto

lemma get_group_filter: "get_group (filter P df) s = filter P (get_group df s)"
  by (auto simp: get_group_def intro: filter_cong)

section \<open>The example log\<close>

lemma example_names:
  "set (activity_types example_log) \<inter> set (feature_names @ [''final_grade'']) = {}"
  by (simp add: activity_types_def example_log_def ev_def feature_names_def)

lemma example_ids: "student_id ` set example_log = {101, 102, 103}"
  by (auto simp: example_log_def ev_def)

lemma example_groups:
  "get_group example_log 101 = [ev 101 ''quiz'' 0, ev 101 ''quiz'' 3]"
  "get_group example_log 102 = [ev 102 ''forum'' 6]"
  "get_group example_log 103 = [ev 103 ''video'' 1, ev 103 ''video'' 2, ev 103 ''video'' 5, ev 103 ''quiz'' 10]"
  by (simp_all add: get_group_def example_log_def ev_def)

lemma example_midpoint: "midpoint example_log = Some 5"
  by (simp add: midpoint_def example_log_def ev_def)

section \<open>Zero fill\<close>

lemma underlying_cases:
  "underlying_events vle_log s ''first_half_activities'' = filter (le_midpoint (midpoint vle_log)) (get_group vle_log s)"
  "underlying_events vle_log s ''second_half_activities'' = filter (gt_midpoint (midpoint vle_log)) (get_group vle_log s)"
  "c \<notin> set feature_names \<Longrightarrow> underlying_events vle_log s c = filter (\<lambda>e. activity e = c) (get_group vle_log s)"
  by (auto simp: underlying_events_def feature_names_def)

lemma zero_fill_aggregates:
  assumes "build_abt vle_log vle_grades = Inr abt" and "s \<in> student_id ` set vle_log"
  shows "\<exists>v. loc abt s ''total_activities'' = Some (Num v)
           \<and> (underlying_events vle_log s ''total_activities'' = [] \<longrightarrow> v = 0)"
    and "\<exists>v. loc abt s ''active_days'' = Some (Num v)
           \<and> (underlying_events vle_log s ''active_days'' = [] \<longrightarrow> v = 0)"
    and "\<exists>v. loc abt s ''activity_consistency'' = Some (Num v)
           \<and> (underlying_events vle_log s ''activity_consistency'' = [] \<longrightarrow> v = 0)"
    and "\<exists>v. loc abt s ''first_half_activities'' = Some (Num v)
           \<and> (underlying_events vle_log s ''first_half_activities'' = [] \<longrightarrow> v = 0)"
    and "\<exists>v. loc abt s ''second_half_activities'' = Some (Num v)
           \<and> (underlying_events vle_log s ''second_half_activities'' = [] \<longrightarrow> v = 0)"
proof -
  have ne: "get_group vle_log s \<noteq> []"
    using assms(2) by (auto simp: get_group_def filter_empty_conv)
  have u: "underlying_events vle_log s ''total_activities'' = get_group vle_log s"
    "underlying_events vle_log s ''active_days'' = get_group vle_log s"
    "underlying_events vle_log s ''activity_consistency'' = get_group vle_log s"
    by (simp_all add: underlying_events_def feature_names_def)
  have f: "''total_activities'' \<in> set feature_names" "''active_days'' \<in> set feature_names"
    "''activity_consistency'' \<in> set feature_names" "''first_half_activities'' \<in> set feature_names"
    "''second_half_activities'' \<in> set feature_names"
    by (simp_all add: feature_names_def)
  show "\<exists>v. loc abt s ''total_activities'' = Some (Num v)
           \<and> (underlying_events vle_log s ''total_activities'' = [] \<longrightarrow> v = 0)"
    unfolding u loc_abt_feature[OF assms(1) f(1)] loc_features(1)[OF assms(2)]
    using ne by (simp add: size_of_def)
  show "\<exists>v. loc abt s ''active_days'' = Some (Num v)
           \<and> (underlying_events vle_log s ''active_days'' = [] \<longrightarrow> v = 0)"
    unfolding u loc_abt_feature[OF assms(1) f(2)] loc_features(2)[OF assms(2)]
    using ne by (simp add: nunique_date_def)
  have num: "\<exists>v. fillna_cell 0 (stdev_gap (get_group vle_log s)) = Num v"
    by (simp add: stdev_gap_def series_std_def fillna_cell_def Let_def)
  show "\<exists>v. loc abt s ''activity_consistency'' = Some (Num v)
           \<and> (underlying_events vle_log s ''activity_consistency'' = [] \<longrightarrow> v = 0)"
    unfolding u loc_abt_feature[OF assms(1) f(3)] loc_features(3)[OF assms(2)]
    using ne num by simp
  show "\<exists>v. loc abt s ''first_half_activities'' = Some (Num v)
           \<and> (underlying_events vle_log s ''first_half_activities'' = [] \<longrightarrow> v = 0)"
    unfolding underlying_cases loc_abt_feature[OF assms(1) f(4)] loc_features(4)[OF assms(2)]
    by (simp add: size_of_def get_group_filter)
  show "\<exists>v. loc abt s ''second_half_activities'' = Some (Num v)
           \<and> (underlying_events vle_log s ''second_half_activities'' = [] \<longrightarrow> v = 0)"
    unfolding underlying_cases loc_abt_feature[OF assms(1) f(5)] loc_features(5)[OF assms(2)]
    by (simp add: size_of_def get_group_filter)
qed

text \<open>
  Claim C5. When the ABT is built, every student of the log has a number in each of the
  five aggregate columns and in each activity-type column, and the number is 0 where no
  event of the student underlies the column. (Building the ABT fails only when an
  activity is named like an aggregate column or like \<^verbatim>\<open>final_grade\<close>.)
\<close>

theorem zero_fill_invariant:
  assumes "build_abt vle_log vle_grades = Inr abt"
    and "s \<in> student_id ` set vle_log"
    and "c \<in> set feature_names \<union> set (activity_types vle_log)"
  shows "\<exists>v. loc abt s c = Some (Num v) \<and> (underlying_events vle_log s c = [] \<longrightarrow> v = 0)"
proof (cases "c \<in> set feature_names")
  case True
  then have disj: "c = ''total_activities'' \<or> c = ''active_days'' \<or> c = ''activity_consistency''
      \<or> c = ''first_half_activities'' \<or> c = ''second_half_activities''"
    by (simp add: feature_names_def)
  then show ?thesis
    using zero_fill_aggregates[OF assms(1,2)] by (elim disjE) blast+
next
  case False
  then have a: "c \<in> set (activity_types vle_log)" using assms(3) by simp
  show ?thesis
    using False by (simp add: loc_abt_activity[OF assms(1) a assms(2)] size_of_def underlying_cases)
qed

theorem zero_fill_invariant_witness:
  "build_abt example_log example_grades = Inr (projr (build_abt example_log example_grades))
   \<and> 102 \<in> student_id ` set example_log
   \<and> ''quiz'' \<in> set feature_names \<union> set (activity_types example_log)
   \<and> underlying_events example_log 102 ''quiz'' = []
   \<and> loc (projr (build_abt example_log example_grades)) 102 ''quiz'' = Some (Num 0)"
proof -
  have h1: "build_abt example_log example_grades = Inr (projr (build_abt example_log example_grades))"
    using example_names by (rule build_abt_projr)
  have h2: "102 \<in> student_id ` set example_log" by (simp add: example_ids)
  have h3: "''quiz'' \<in> set feature_names \<union> set (activity_types example_log)"
    by (simp add: activity_types_def example_log_def ev_def)
  have h4: "underlying_events example_log 102 ''quiz'' = []"
    by (simp add: underlying_events_def feature_names_def example_groups ev_def)
  show ?thesis
    using zero_fill_invariant[OF h1 h2 h3] h1 h2 h3 h4 by auto
qed

section \<open>Half split\<close>

text \<open>
  Claim C6. For every student of the log, \<^verbatim>\<open>first_half_activities\<close> is the number of the
  student's events dated at or before the midpoint, \<^verbatim>\<open>second_half_activities\<close> the number
  of those dated after it, and the two add up to \<^verbatim>\<open>total_activities\<close>.
\<close>

theorem half_split_completeness:
  assumes "build_abt vle_log vle_grades = Inr abt" and "s \<in> student_id ` set vle_log"
  shows "\<exists>a b t. loc abt s ''first_half_activities'' = Some (Num (real a))
           \<and> loc abt s ''second_half_activities'' = Some (Num (real b))
           \<and> loc abt s ''total_activities'' = Some (Num (real t))
           \<and> a = length (filter (le_midpoint (midpoint vle_log)) (get_group vle_log s))
           \<and> b = length (filter (gt_midpoint (midpoint vle_log)) (get_group vle_log s))
           \<and> t = length (get_group vle_log s)
           \<and> a + b = t"
proof -
  have m: "midpoint vle_log \<noteq> None"
    using assms(2) by (cases vle_log) (auto simp: midpoint_def)
  then obtain t where t: "midpoint vle_log = Some t" by auto
  have compl: "gt_midpoint (midpoint vle_log) = (\<lambda>e. \<not> le_midpoint (midpoint vle_log) e)"
    by (auto simp: t gt_midpoint_def le_midpoint_def fun_eq_iff)
  have sum: "length (filter (le_midpoint (midpoint vle_log)) (get_group vle_log s))
        + length (filter (gt_midpoint (midpoint vle_log)) (get_group vle_log s))
        = length (get_group vle_log s)"
    unfolding compl by (rule sum_length_filter_compl)
  have f: "''first_half_activities'' \<in> set feature_names"
    and g: "''second_half_activities'' \<in> set feature_names"
    and h: "''total_activities'' \<in> set feature_names"
    by (simp_all add: feature_names_def)
  show ?thesis
    using sum
    by (simp add: loc_abt_feature[OF assms(1) f] loc_abt_feature[OF assms(1) g]
        loc_abt_feature[OF assms(1) h] loc_features[OF assms(2)] size_of_def get_group_filter)
qed

theorem half_split_completeness_witness:
  "build_abt example_log example_grades = Inr (projr (build_abt example_log example_grades))
   \<and> 103 \<in> student_id ` set example_log
   \<and> loc (projr (build_abt example_log example_grades)) 103 ''first_half_activities'' = Some (Num 3)
   \<and> loc (projr (build_abt example_log example_grades)) 103 ''second_half_activities'' = Some (Num 1)
   \<and> loc (projr (build_abt example_log example_grades)) 103 ''total_activities'' = Some (Num 4)"
proof -
  have h1: "build_abt example_log example_grades = Inr (projr (build_abt example_log example_grades))"
    using example_names by (rule build_abt_projr)
  have h2: "103 \<in> student_id ` set example_log" by (simp add: example_ids)
  have a: "length (filter (le_midpoint (midpoint example_log)) (get_group example_log 103)) = 3"
    by (simp add: example_midpoint example_groups le_midpoint_def ev_def)
  have b: "length (filter (gt_midpoint (midpoint example_log)) (get_group example_log 103)) = 1"
    by (simp add: example_midpoint example_groups gt_midpoint_def ev_def)
  have t: "length (get_group example_log 103) = 4"
    by (simp add: example_groups)
  show ?thesis
    using half_split_completeness[OF h1 h2] h1 h2 unfolding a b t by auto
qed

section \<open>Activity consistency\<close>

lemma stdev_gap_lt2: "length df < 2 \<Longrightarrow> stdev_gap df = Num 0"
  by (simp add: stdev_gap_def)

lemma stdev_gap_eq2:
  assumes "length df = 2"
  shows "stdev_gap df = NaN"
proof -
  have "length (map date (sort_key date df)) = 2" using assms by simp
  then obtain a b where ab: "map date (sort_key date df) = [a, b]"
    by (cases "map date (sort_key date df)"; simp; cases "tl (map date (sort_key date df))"; auto)
  show ?thesis
    using assms by (simp add: stdev_gap_def ab dropna_def series_std_def)
qed

text \<open>
  Claim C7. For a student with fewer than 2 events, \<^verbatim>\<open>stdev_gap\<close> returns the number 0
  itself, and \<^verbatim>\<open>activity_consistency\<close> is 0 in the feature table, and in the ABT once
  it is built. Neither \<^verbatim>\<open>stdev_gap\<close> nor the feature table has an error branch.
\<close>

theorem consistency_single_event:
  assumes "s \<in> student_id ` set vle_log" and "length (get_group vle_log s) < 2"
  shows "stdev_gap (get_group vle_log s) = Num 0
       \<and> loc (features vle_log) s ''activity_consistency'' = Some (Num 0)
       \<and> (build_abt vle_log vle_grades = Inr abt
            \<longrightarrow> loc abt s ''activity_consistency'' = Some (Num 0))"
proof -
  have c: "''activity_consistency'' \<in> set feature_names" by (simp add: feature_names_def)
  have f: "loc (features vle_log) s ''activity_consistency'' = Some (Num 0)"
    by (simp add: loc_features(3)[OF assms(1)] stdev_gap_lt2[OF assms(2)] fillna_cell_def)
  show ?thesis
    using f loc_abt_feature[OF _ c, of vle_log vle_grades abt s]
    by (simp add: stdev_gap_lt2[OF assms(2)])
qed

theorem consistency_single_event_witness:
  "102 \<in> student_id ` set example_log
   \<and> length (get_group example_log 102) < 2
   \<and> build_abt example_log example_grades = Inr (projr (build_abt example_log example_grades))
   \<and> stdev_gap (get_group example_log 102) = Num 0
   \<and> loc (features example_log) 102 ''activity_consistency'' = Some (Num 0)
   \<and> loc (projr (build_abt example_log example_grades)) 102 ''activity_consistency'' = Some (Num 0)"
proof -
  have h1: "build_abt example_log example_grades = Inr (projr (build_abt example_log example_grades))"
    using example_names by (rule build_abt_projr)
  have h2: "102 \<in> student_id ` set example_log" by (simp add: example_ids)
  have h3: "length (get_group example_log 102) < 2" by (simp add: example_groups)
  show ?thesis
    using consistency_single_event[OF h2 h3, of example_grades
        "projr (build_abt example_log example_grades)"] h1 h2 h3
    by simp
qed

text \<open>
  Claim C10. For a student with fewer than 3 events \<^verbatim>\<open>activity_consistency\<close> is 0 in the
  assembled feature table, and in the ABT once it is built; with exactly 2 events
  \<^verbatim>\<open>stdev_gap\<close> returns the missing value (the standard deviation of the single gap),
  which the zero fill of the feature table turns into 0.
\<close>

theorem consistency_two_events:
  assumes "s \<in> student_id ` set vle_log" and "length (get_group vle_log s) < 3"
  shows "loc (features vle_log) s ''activity_consistency'' = Some (Num 0)
       \<and> (length (get_group vle_log s) = 2 \<longrightarrow> stdev_gap (get_group vle_log s) = NaN)
       \<and> (build_abt vle_log vle_grades = Inr abt
            \<longrightarrow> loc abt s ''activity_consistency'' = Some (Num 0))"
proof -
  have c: "''activity_consistency'' \<in> set feature_names" by (simp add: feature_names_def)
  have "length (get_group vle_log s) < 2 \<or> length (get_group vle_log s) = 2"
    using assms(2) by arith
  then have "fillna_cell 0 (stdev_gap (get_group vle_log s)) = Num 0"
    by (auto simp: stdev_gap_lt2 stdev_gap_eq2 fillna_cell_def)
  then have f: "loc (features vle_log) s ''activity_consistency'' = Some (Num 0)"
    by (simp add: loc_features(3)[OF assms(1)])
  show ?thesis
    using f loc_abt_feature[OF _ c, of vle_log vle_grades abt s]
    by (simp add: stdev_gap_eq2)
qed

theorem consistency_two_events_witness:
  "101 \<in> student_id ` set example_log
   \<and> length (get_group example_log 101) = 2
   \<and> build_abt example_log example_grades = Inr (projr (build_abt example_log example_grades))
   \<and> stdev_gap (get_group example_log 101) = NaN
   \<and> loc (features example_log) 101 ''activity_consistency'' = Some (Num 0)
   \<and> loc (projr (build_abt example_log example_grades)) 101 ''activity_consistency'' = Some (Num 0)"
proof -
  have h1: "build_abt example_log example_grades = Inr (projr (build_abt example_log example_grades))"
    using example_names by (rule build_abt_projr)
  have h2: "101 \<in> student_id ` set example_log" by (simp add: example_ids)
  have h3: "length (get_group example_log 101) = 2" by (simp add: example_groups)
  have h3': "length (get_group example_log 101) < 3" by (simp add: example_groups)
  show ?thesis
    using consistency_two_events[OF h2 h3', of example_grades
        "projr (build_abt example_log example_grades)"] h1 h2 h3
    by simp
qed

lemma map_insort_key: "map f (insort_key f x xs) = insort (f x) (map f xs)"
  by (induction xs) auto

lemma map_sort_key: "map f (sort_key f xs) = sort (map f xs)"
  by (induction xs) (auto simp: map_insort_key)

lemma num_values_dropna_diff:
  "num_values (dropna (diff_days ds)) = map (\<lambda>(a, b). real_of_int (b - a)) (zip ds (tl ds))"
proof (cases ds)
  case Nil
  then show ?thesis by (simp add: dropna_def)
next
  case (Cons d ds')
  have "\<And>xs. num_values (filter (\<lambda>c. c \<noteq> NaN) (map (\<lambda>(a, b). Num (real_of_int (b - a))) xs))
          = map (\<lambda>(a, b). real_of_int (b - a)) xs"
    subgoal for xs by (induction xs) auto
    done
  then show ?thesis using Cons by (simp add: dropna_def)
qed

lemma dropna_diff_empty: "dropna (diff_days ds) = [] \<longleftrightarrow> length ds < 2"
proof (cases ds)
  case Nil
  then show ?thesis by (simp add: dropna_def)
next
  case (Cons d ds')
  then show ?thesis by (cases ds') (auto simp: dropna_def)
qed

lemma length_day_gaps: "length (day_gaps ds) = length ds - 1"
  by (simp add: day_gaps_def Let_def)

lemma stdev_gap_ge3:
  assumes "3 \<le> length df"
  shows "sample_std (day_gaps (map date df)) \<noteq> None"
    and "stdev_gap df = Num (the (sample_std (day_gaps (map date df))))"
proof -
  let ?ds = "map date (sort_key date df)"
  have srt: "?ds = sort (map date df)" by (rule map_sort_key)
  have gaps: "num_values (dropna (diff_days ?ds)) = day_gaps (map date df)"
    by (simp add: num_values_dropna_diff day_gaps_def srt Let_def)
  have len: "length (day_gaps (map date df)) = length df - 1"
    by (simp add: length_day_gaps)
  have ne: "dropna (diff_days ?ds) \<noteq> []"
    using assms by (simp add: dropna_diff_empty)
  show "sample_std (day_gaps (map date df)) \<noteq> None"
    using assms len by (simp add: sample_std_def)
  have r: "real (length df - 1 - 1) = real (length df - 1) - 1"
    using assms by (simp add: of_nat_diff)
  show "stdev_gap df = Num (the (sample_std (day_gaps (map date df))))"
    using assms ne unfolding stdev_gap_def series_std_def Let_def gaps sample_std_def len
    by (simp add: r)
qed

lemma example_gaps: "day_gaps (map date (get_group example_log 103)) = [1, 3, 5]"
  by (simp add: example_groups ev_def day_gaps_def)

lemma example_std: "sample_std (day_gaps (map date (get_group example_log 103))) = Some 2"
  by (simp add: example_gaps sample_std_def)

text \<open>
  Claim C8. As amended: for a student with at least 3 events, \<^verbatim>\<open>activity_consistency\<close> is
  the sample standard deviation (\<open>ddof = 1\<close>) of the day-gaps between the student's
  consecutive sorted event dates.
\<close>

theorem consistency_is_sample_std:
  assumes "build_abt vle_log vle_grades = Inr abt" and "s \<in> student_id ` set vle_log"
    and "3 \<le> length (get_group vle_log s)"
  shows "\<exists>sd. sample_std (day_gaps (map date (get_group vle_log s))) = Some sd
            \<and> loc abt s ''activity_consistency'' = Some (Num sd)"
proof -
  have c: "''activity_consistency'' \<in> set feature_names" by (simp add: feature_names_def)
  obtain sd where sd: "sample_std (day_gaps (map date (get_group vle_log s))) = Some sd"
    using stdev_gap_ge3(1)[OF assms(3)] by auto
  have "stdev_gap (get_group vle_log s) = Num sd"
    using stdev_gap_ge3(2)[OF assms(3)] sd by simp
  then have "loc abt s ''activity_consistency'' = Some (Num sd)"
    by (simp add: loc_abt_feature[OF assms(1) c] loc_features(3)[OF assms(2)] fillna_cell_def)
  then show ?thesis using sd by simp
qed

theorem consistency_is_sample_std_witness:
  "build_abt example_log example_grades = Inr (projr (build_abt example_log example_grades))
   \<and> 103 \<in> student_id ` set example_log
   \<and> 3 \<le> length (get_group example_log 103)
   \<and> sample_std (day_gaps (map date (get_group example_log 103))) = Some 2
   \<and> loc (projr (build_abt example_log example_grades)) 103 ''activity_consistency'' = Some (Num 2)"
proof -
  have h1: "build_abt example_log example_grades = Inr (projr (build_abt example_log example_grades))"
    using example_names by (rule build_abt_projr)
  have h2: "103 \<in> student_id ` set example_log" by (simp add: example_ids)
  have h3: "3 \<le> length (get_group example_log 103)" by (simp add: example_groups)
  show ?thesis
    using consistency_is_sample_std[OF h1 h2 h3] h1 h2 h3 example_std by simp
qed

text \<open>
  As stated, for every student with at least 2 events, the claim fails: a student with
  exactly 2 events has a single gap, which has no sample standard deviation, and the
  ABT holds 0.
\<close>

theorem consistency_is_sample_std_counterexample:
  "build_abt example_log example_grades = Inr (projr (build_abt example_log example_grades))
   \<and> 101 \<in> student_id ` set example_log
   \<and> 2 \<le> length (get_group example_log 101)
   \<and> sample_std (day_gaps (map date (get_group example_log 101))) = None
   \<and> loc (projr (build_abt example_log example_grades)) 101 ''activity_consistency'' = Some (Num 0)
   \<and> loc (projr (build_abt example_log example_grades)) 101 ''activity_consistency''
       \<noteq> map_option Num (sample_std (day_gaps (map date (get_group example_log 101))))"
proof -
  have h1: "build_abt example_log example_grades = Inr (projr (build_abt example_log example_grades))"
    using example_names by (rule build_abt_projr)
  have h2: "101 \<in> student_id ` set example_log" by (simp add: example_ids)
  have h3: "length (get_group example_log 101) = 2" by (simp add: example_groups)
  have c: "''activity_consistency'' \<in> set feature_names" by (simp add: feature_names_def)
  have sd: "sample_std (day_gaps (map date (get_group example_log 101))) = None"
    by (simp add: sample_std_def length_day_gaps h3)
  have v: "loc (projr (build_abt example_log example_grades)) 101 ''activity_consistency'' = Some (Num 0)"
    by (simp add: loc_abt_feature[OF h1 c] loc_features(3)[OF h2] stdev_gap_eq2[OF h3] fillna_cell_def)
  show ?thesis using h1 h2 h3 sd v by simp
qed

section \<open>Numeric grade\<close>

lemma map_of_series_map: "map_of (series_map m ser) s = map_option (map_cell m) (map_of ser s)"
  by (induction ser) (auto simp: series_map_def)

lemma map_of_replace:
  "map_of (map (\<lambda>(n, old). (n, if n = name then ser else old)) cols) c =
     (if c = name then (if name \<in> set (map fst cols) then Some ser else None) else map_of cols c)"
  by (induction cols) (force split: if_splits)+

lemma loc_set_column:
  "loc (set_column fr name ser) s c = (if c = name then map_of ser s else loc fr s c)"
proof (cases "name \<in> set (map fst (fcols fr))")
  case True
  then show ?thesis by (simp add: loc_def set_column_def map_of_replace)
next
  case False
  then have "map_of (fcols fr) name = None" by (simp add: map_of_None_iff_names)
  then show ?thesis using False
    by (auto simp: loc_def set_column_def map_add_def split: option.splits)
qed

lemma loc_add_grade_numeric:
  assumes "add_grade_numeric abt0 = Inr abt"
  shows "loc abt s c = (if c = ''grade_numeric''
           then map_option (map_cell GRADE_MAP) (loc abt0 s ''final_grade'') else loc abt0 s c)"
proof -
  obtain fg where fg: "map_of (fcols abt0) ''final_grade'' = Some fg"
    and abt: "abt = set_column abt0 ''grade_numeric'' (series_map GRADE_MAP fg)"
    using assms by (auto simp: add_grade_numeric_def split: option.splits)
  have "loc abt0 s ''final_grade'' = map_of fg s" by (simp add: loc_def fg)
  then show ?thesis by (simp add: abt loc_set_column map_of_series_map)
qed

lemma add_grade_numeric_ok:
  assumes "build_abt vle_log vle_grades = Inr abt0"
  shows "\<exists>abt. add_grade_numeric abt0 = Inr abt"
proof -
  have "''final_grade'' \<in> set (map fst (fcols abt0))"
    by (simp add: names_build_abt[OF assms])
  then have "map_of (fcols abt0) ''final_grade'' \<noteq> None"
    by (simp add: map_of_None_iff_names)
  then show ?thesis by (auto simp: add_grade_numeric_def)
qed

lemma assemble_abt_projr:
  assumes "set (activity_types vle_log) \<inter> set (feature_names @ [''final_grade'']) = {}"
  shows "assemble_abt vle_log vle_grades = Inr (projr (assemble_abt vle_log vle_grades))"
proof -
  obtain abt0 where b: "build_abt vle_log vle_grades = Inr abt0"
    using build_abt_ok[OF assms] by blast
  obtain abt where "add_grade_numeric abt0 = Inr abt"
    using add_grade_numeric_ok[OF b] by blast
  then show ?thesis by (simp add: assemble_abt_def b)
qed

lemma map_cell_GRADE_MAP:
  "map_cell GRADE_MAP (Str g) =
     (if g = ''fail'' then Num 1 else if g = ''pass'' then Num 2
      else if g = ''merit'' then Num 3 else if g = ''distinction'' then Num 4 else NaN)"
  "map_cell GRADE_MAP NaN = NaN"
  by (simp_all add: map_cell_def GRADE_MAP_def)

text \<open>
  Claim C2. As amended: adding \<^verbatim>\<open>grade_numeric\<close> to a built ABT never raises; the column
  holds 1, 2, 3, 4 for the labels fail, pass, merit, distinction and the missing value
  for any other label and for a student without a label.
\<close>

theorem grade_numeric_unrecognized_is_missing:
  assumes "build_abt vle_log vle_grades = Inr abt0" and "s \<in> student_id ` set vle_log"
  shows "\<exists>abt. assemble_abt vle_log vle_grades = Inr abt
           \<and> loc abt s ''grade_numeric'' =
               Some (case map_of vle_grades s of
                       None \<Rightarrow> NaN
                     | Some g \<Rightarrow>
                         if g = ''fail'' then Num 1 else if g = ''pass'' then Num 2
                         else if g = ''merit'' then Num 3 else if g = ''distinction'' then Num 4
                         else NaN)"
proof -
  obtain abt where abt: "add_grade_numeric abt0 = Inr abt"
    using add_grade_numeric_ok[OF assms(1)] by blast
  have a: "assemble_abt vle_log vle_grades = Inr abt"
    by (simp add: assemble_abt_def assms(1) abt)
  have "loc abt s ''grade_numeric'' =
      map_option (map_cell GRADE_MAP) (loc abt0 s ''final_grade'')"
    by (simp add: loc_add_grade_numeric[OF abt])
  then show ?thesis
    using a by (simp add: loc_abt_final_grade[OF assms] map_cell_GRADE_MAP split: option.splits)
qed

theorem grade_numeric_unrecognized_is_missing_witness:
  "build_abt example_log example_grades = Inr (projr (build_abt example_log example_grades))
   \<and> 101 \<in> student_id ` set example_log
   \<and> assemble_abt example_log example_grades = Inr (projr (assemble_abt example_log example_grades))
   \<and> loc (projr (assemble_abt example_log example_grades)) 101 ''grade_numeric'' = Some (Num 2)"
proof -
  have h1: "build_abt example_log example_grades = Inr (projr (build_abt example_log example_grades))"
    using example_names by (rule build_abt_projr)
  have h2: "101 \<in> student_id ` set example_log" by (simp add: example_ids)
  have g: "map_of example_grades 101 = Some ''pass''" by (simp add: example_grades_def)
  show ?thesis
    using grade_numeric_unrecognized_is_missing[OF h1 h2] h1 h2 unfolding g by auto
qed

text \<open>
  As stated, the claim fails: with the label \<^verbatim>\<open>honors\<close> for student 103 the ABT is
  assembled without an error and \<^verbatim>\<open>grade_numeric\<close> of the student is the missing value.
\<close>

theorem grade_map_honors_counterexample:
  "assemble_abt example_log example_grades = Inr (projr (assemble_abt example_log example_grades))
   \<and> 103 \<in> student_id ` set example_log
   \<and> map_of example_grades 103 = Some ''honors''
   \<and> loc (projr (assemble_abt example_log example_grades)) 103 ''final_grade'' = Some (Str ''honors'')
   \<and> loc (projr (assemble_abt example_log example_grades)) 103 ''grade_numeric'' = Some NaN"
proof -
  have h0: "build_abt example_log example_grades = Inr (projr (build_abt example_log example_grades))"
    using example_names by (rule build_abt_projr)
  have h1: "assemble_abt example_log example_grades = Inr (projr (assemble_abt example_log example_grades))"
    using example_names by (rule assemble_abt_projr)
  have a: "add_grade_numeric (projr (build_abt example_log example_grades))
             = Inr (projr (assemble_abt example_log example_grades))"
    using h1 h0 by (simp add: assemble_abt_def split: sum.splits)
  have h2: "103 \<in> student_id ` set example_log" by (simp add: example_ids)
  have g: "map_of example_grades 103 = Some ''honors''" by (simp add: example_grades_def)
  have fg: "loc (projr (build_abt example_log example_grades)) 103 ''final_grade'' = Some (Str ''honors'')"
    by (simp add: loc_abt_final_grade[OF h0 h2] g)
  show ?thesis
    using h1 h2 g by (simp add: loc_add_grade_numeric[OF a] fg map_cell_GRADE_MAP)
qed

text \<open>
  Claim C9. For every student of the log whose label is one of fail, pass, merit,
  distinction, the ABT holds the label in \<^verbatim>\<open>final_grade\<close>, and the inverse of the grade
  map applied to \<^verbatim>\<open>grade_numeric\<close> gives the label back.
\<close>

theorem label_round_trip:
  assumes "assemble_abt vle_log vle_grades = Inr abt" and "s \<in> student_id ` set vle_log"
    and "map_of vle_grades s = Some g"
    and "g \<in> {''fail'', ''pass'', ''merit'', ''distinction''}"
  shows "loc abt s ''final_grade'' = Some (Str g)
       \<and> map_option inverse_cell (loc abt s ''grade_numeric'') = Some (Str g)"
proof -
  obtain abt0 where b: "build_abt vle_log vle_grades = Inr abt0"
    and a: "add_grade_numeric abt0 = Inr abt"
    using assms(1) by (auto simp: assemble_abt_def split: sum.splits)
  have fg0: "loc abt0 s ''final_grade'' = Some (Str g)"
    by (simp add: loc_abt_final_grade[OF b assms(2)] assms(3))
  have fg: "loc abt s ''final_grade'' = Some (Str g)"
    by (simp add: loc_add_grade_numeric[OF a] fg0)
  have gn: "loc abt s ''grade_numeric'' = Some (map_cell GRADE_MAP (Str g))"
    by (simp add: loc_add_grade_numeric[OF a] fg0)
  have "inverse_cell (map_cell GRADE_MAP (Str g)) = Str g"
    using assms(4) by (auto simp: map_cell_GRADE_MAP inverse_cell_def GRADE_INV_def)
  then show ?thesis by (simp add: fg gn)
qed

theorem label_round_trip_witness:
  "assemble_abt example_log example_grades = Inr (projr (assemble_abt example_log example_grades))
   \<and> 101 \<in> student_id ` set example_log
   \<and> map_of example_grades 101 = Some ''pass''
   \<and> ''pass'' \<in> {''fail'', ''pass'', ''merit'', ''distinction''}
   \<and> loc (projr (assemble_abt example_log example_grades)) 101 ''final_grade'' = Some (Str ''pass'')
   \<and> map_option inverse_cell (loc (projr (assemble_abt example_log example_grades)) 101 ''grade_numeric'')
        = Some (Str ''pass'')"
proof -
  have h1: "assemble_abt example_log example_grades = Inr (projr (assemble_abt example_log example_grades))"
    using example_names by (rule assemble_abt_projr)
  have h2: "101 \<in> student_id ` set example_log" by (simp add: example_ids)
  have h3: "map_of example_grades 101 = Some ''pass''" by (simp add: example_grades_def)
  have h4: "''pass'' \<in> {''fail'', ''pass'', ''merit'', ''distinction''}" by simp
  show ?thesis
    using label_round_trip[OF h1 h2 h3 h4] h1 h2 h3 by simp
qed

section \<open>Scaling statistics\<close>

lemma standardize_train:
  "standardize (map column_mean X) (map column_scale X) X =
     map (\<lambda>col. map (\<lambda>x. (x - column_mean col) / column_scale col) col) X"
  by (induction X) (auto simp: standardize_def)

lemma standardize_test:
  "length te = length tr \<Longrightarrow>
   standardize (map column_mean tr) (map column_scale tr) te =
     map (\<lambda>(col, tcol). map (\<lambda>x. (x - column_mean tcol) / column_scale tcol) col) (zip te tr)"
  by (induction te tr rule: list_induct2) (auto simp: standardize_def)

lemma fit_transform_Inr:
  assumes "fit_transform self X = Inr (self', Xs)"
  shows "self' = Fitted (map column_mean X) (map column_scale X)"
    and "Xs = standardize (map column_mean X) (map column_scale X) X"
  using assms by (auto simp: fit_transform_def fit_def transform_def split: if_splits sum.splits)

lemma transform_Fitted_Inr:
  assumes "transform (Fitted (map column_mean tr) (map column_scale tr)) te = Inr Xte"
  shows "length te = length tr" and "Xte = standardize (map column_mean tr) (map column_scale tr) te"
  using assms by (auto simp: transform_def split: if_splits)

lemma fit_then_transform:
  assumes "fit_transform self tr = Inr (self', Xtr)" and "transform self' te = Inr Xte"
  shows "(Xtr, Xte) = training_stats_scaling tr te"
proof -
  note f = fit_transform_Inr[OF assms(1)]
  have t: "transform (Fitted (map column_mean tr) (map column_scale tr)) te = Inr Xte"
    using assms(2) f(1) by simp
  show ?thesis
    using f(2) transform_Fitted_Inr[OF t]
    by (simp add: training_stats_scaling_def standardize_train standardize_test)
qed

lemma subset_loop_scaled:
  "subset_loop scaler X_train X_test subsets = Inr (scaler', results) \<Longrightarrow>
   list_all2 (subset_scaled_from_training X_train X_test) subsets results"
proof (induction subsets arbitrary: scaler results)
  case Nil
  then show ?case by simp
next
  case (Cons sub rest)
  obtain name cols where sub: "sub = (name, cols)" by (cases sub)
  from Cons.prems obtain tr scaler1 Xtr te Xte res where
    tr: "select_columns X_train cols = Inr tr"
    and ft: "fit_transform scaler tr = Inr (scaler1, Xtr)"
    and te: "select_columns X_test cols = Inr te"
    and tt: "transform scaler1 te = Inr Xte"
    and rest: "subset_loop scaler1 X_train X_test rest = Inr (scaler', res)"
    and results: "results = (name, Xtr, Xte) # res"
    by (auto simp: sub split: sum.splits)
  have "subset_scaled_from_training X_train X_test sub (name, Xtr, Xte)"
    using fit_then_transform[OF ft tt] tr te by (simp add: subset_scaled_from_training_def sub)
  then show ?case
    using Cons.IH[OF rest] by (simp add: results)
qed

text \<open>
  Claim C4. Whenever the scaling of cell 3.1 and of the subset loop goes through, the
  scaled training and test partitions are those standardized with the means and scales
  of the training partition, and for each subset the two scaled arrays are those
  standardized with the means and scales of the subset's columns of the training
  partition: the statistics are refitted for each subset, whatever the scaler held
  before.
\<close>

theorem scaling_fit_on_training_only:
  assumes "evaluation_scaling X_train X_test subsets = Inr ((X_train_s, X_test_s), results)"
  shows "(X_train_s, X_test_s) = training_stats_scaling (map snd X_train) (map snd X_test)
       \<and> list_all2 (subset_scaled_from_training X_train X_test) subsets results"
proof -
  from assms obtain scaler scaler' where
    sp: "scale_partitions X_train X_test = Inr (scaler, X_train_s, X_test_s)"
    and lp: "subset_loop scaler X_train X_test subsets = Inr (scaler', results)"
    by (auto simp: evaluation_scaling_def split: sum.splits)
  from sp have ft: "fit_transform Unfitted (map snd X_train) = Inr (scaler, X_train_s)"
    and tt: "transform scaler (map snd X_test) = Inr X_test_s"
    by (auto simp: scale_partitions_def split: sum.splits)
  show ?thesis
    using fit_then_transform[OF ft tt] subset_loop_scaled[OF lp] by simp
qed

lemma example_stats:
  "column_mean [1, 3] = 2" "column_scale [1, 3] = 1" "column_mean [0, 4] = 2" "column_scale [0, 4] = 2"
  by (simp_all add: column_mean_def column_scale_def column_var_def)

lemma example_evaluation_scaling:
  "evaluation_scaling example_X_train example_X_test example_subsets =
     Inr (([[-1, 1], [-1, 1]], [[3], [2]]),
          [(''All Features'', [[-1, 1], [-1, 1]], [[3], [2]]),
           (''Frequency Features'', [[-1, 1]], [[2]])])"
  by (simp add: evaluation_scaling_def scale_partitions_def fit_transform_def fit_def transform_def
      no_samples_def standardize_def example_X_train_def example_X_test_def example_subsets_def
      example_stats)

theorem scaling_fit_on_training_only_witness:
  "evaluation_scaling example_X_train example_X_test example_subsets =
     Inr (([[-1, 1], [-1, 1]], [[3], [2]]),
          [(''All Features'', [[-1, 1], [-1, 1]], [[3], [2]]),
           (''Frequency Features'', [[-1, 1]], [[2]])])
   \<and> ([[-1, 1], [-1, 1]], [[3], [2]])
        = training_stats_scaling (map snd example_X_train) (map snd example_X_test)
   \<and> list_all2 (subset_scaled_from_training example_X_train example_X_test) example_subsets
        [(''All Features'', [[-1, 1], [-1, 1]], [[3], [2]]),
         (''Frequency Features'', [[-1, 1]], [[2]])]"
  by (rule conjI[OF example_evaluation_scaling
        scaling_fit_on_training_only[OF example_evaluation_scaling]])

section \<open>Infeasible stratification\<close>















end
